theory Spec2Isabelle
  imports
    Complex_Main
    "HOL-Library.Char_ord"
    "HOL-Library.List_Lexorder"
    "HOL-Library.Multiset"
    "HOL-Library.Sublist"
begin

section \<open>The fountain dashboard: data model\<close>

text \<open>
  The program is \<^verbatim>\<open>src/app.py\<close>. It reads a table of water fountains with pandas,
  fills two columns, derives two more, sorts the rows by line, and then filters and counts
  the rows for display.

  Python strings are sequences of code points. Here a string is a \<^typ>\<open>string\<close> whose
  characters stand for the code points below 256, which covers every literal of the program;
  the order on strings is the lexicographic order on code points, as Python's is.

  A pandas cell is missing (\<open>NaN\<close>), a number or a string. Numbers are kept as the rational
  they denote, for an integer and for a float alike.
\<close>

datatype cell = NaN | Num rat | Str string

fun is_num :: "cell \<Rightarrow> bool" where
  "is_num (Num x) = True"
| "is_num c = False"

fun is_text :: "cell \<Rightarrow> bool" where
  "is_text (Str s) = True"
| "is_text c = False"

text \<open>
  \<open>pd.read_csv\<close> (line 29, no \<open>dtype\<close>) decides the kind of a column from its cells: a
  column whose cells all read as numbers holds numbers, and any other column holds the cells
  as texts; an empty cell is missing in both. So a column as read never holds a number and a
  text together. \<open>mixed\<close> says of a column that it does.
\<close>

definition mixed :: "cell list \<Rightarrow> bool" where
  "mixed col \<longleftrightarrow> list_ex is_num col \<and> list_ex is_text col"

text \<open>
  The order in which pandas sorts the cells of a column: numbers by their value, texts as
  strings, missing cells last. Numbers are put before texts to make the order total; pandas
  raises \<open>TypeError\<close> when it has to compare a number with a text, and the functions below
  that sort a column say so by \<open>mixed\<close>, before this order is asked.
\<close>

instantiation cell :: linorder
begin

fun less_eq_cell :: "cell \<Rightarrow> cell \<Rightarrow> bool" where
  "less_eq_cell (Num a) (Num b) \<longleftrightarrow> a \<le> b"
| "less_eq_cell (Num a) (Str t) \<longleftrightarrow> True"
| "less_eq_cell (Num a) NaN \<longleftrightarrow> True"
| "less_eq_cell (Str s) (Num b) \<longleftrightarrow> False"
| "less_eq_cell (Str s) (Str t) \<longleftrightarrow> s \<le> t"
| "less_eq_cell (Str s) NaN \<longleftrightarrow> True"
| "less_eq_cell NaN (Num b) \<longleftrightarrow> False"
| "less_eq_cell NaN (Str t) \<longleftrightarrow> False"
| "less_eq_cell NaN NaN \<longleftrightarrow> True"

definition less_cell :: "cell \<Rightarrow> cell \<Rightarrow> bool" where
  "less_cell x y \<longleftrightarrow> x \<le> y \<and> \<not> y \<le> x"

instance
proof
  fix x y z :: cell
  show "x < y \<longleftrightarrow> x \<le> y \<and> \<not> y \<le> x"
    by (simp add: less_cell_def)
  show "x \<le> x"
    by (cases x) simp_all
  show "x \<le> y \<Longrightarrow> y \<le> z \<Longrightarrow> x \<le> z"
    by (cases x; cases y; cases z) auto
  show "x \<le> y \<Longrightarrow> y \<le> x \<Longrightarrow> x = y"
    by (cases x; cases y) auto
  show "x \<le> y \<or> y \<le> x"
    by (cases x; cases y) auto
qed

end

datatype error = TypeError | ValueError | OverflowError

text \<open>
  The thirteen columns that line 32 of the source names, in its order. The column
  \<open>ligne\<close> holds texts when one line at least is not a number (the network has the lines A
  and 3bis); in a file where every line is a number it holds numbers.
\<close>

record fontaine =
  id_ratp :: cell
  ligne :: cell
  station :: cell
  longitude :: cell
  latitude :: cell
  id_idm :: cell
  adresse :: cell
  code_postal :: cell
  commune :: cell
  num_acces :: cell
  nom_acces :: cell
  zone_controlee :: cell
  point_geo :: cell

text \<open>A row of the prepared frame: the thirteen columns and the two derived ones.\<close>

record prepared = fontaine +
  type_ligne :: string
  region :: string

section \<open>Preparation (\<open>load_and_prepare_data\<close>, lines 21 to 49)\<close>

text \<open>
  The frame is a list of rows, in the order of the file. The model starts from the rows that
  \<open>pd.read_csv\<close> returned, under the thirteen names that line 32 gives to the columns.
\<close>

definition non_renseigne :: string where
  "non_renseigne = ''non renseign'' @ [CHR 0xE9]"

definition Non_specifie :: string where
  "Non_specifie = ''Non sp'' @ [CHR 0xE9] @ ''cifi'' @ [CHR 0xE9]"

definition Metro :: string where
  "Metro = ''M'' @ [CHR 0xE9] @ ''tro''"

text \<open>\<open>Series.fillna(d)\<close> on one cell.\<close>

fun fillna :: "string \<Rightarrow> cell \<Rightarrow> cell" where
  "fillna d NaN = Str d"
| "fillna d (Num x) = Num x"
| "fillna d (Str s) = Str s"

text \<open>Line 43: \<open>lambda x: 'RER' if x in ['A', 'B', 'C', 'D', 'E'] else m\<close>, where \<open>m\<close> is the
  word Metro with an acute accent on its \<open>e\<close> (code point \<open>0xE9\<close>).\<close>

definition type_ligne_of :: "cell \<Rightarrow> string" where
  "type_ligne_of x =
     (if x \<in> set [Str ''A'', Str ''B'', Str ''C'', Str ''D'', Str ''E''] then ''RER'' else Metro)"

text \<open>
  Line 44: \<open>lambda x: 'Paris' if x >= 75000 and x < 76000 else 'Banlieue'\<close>.
  A comparison with \<open>NaN\<close> is false; a comparison of a \<open>str\<close> with an \<open>int\<close> raises
  \<open>TypeError\<close>.
\<close>

fun region_of :: "cell \<Rightarrow> error + string" where
  "region_of (Num x) = Inr (if x \<ge> 75000 \<and> x < 76000 then ''Paris'' else ''Banlieue'')"
| "region_of NaN = Inr ''Banlieue''"
| "region_of (Str s) = Inl TypeError"

text \<open>\<open>Series.apply(f)\<close>: the function is run on each cell in turn, and the first exception
  leaves the call.\<close>

fun apply_col :: "('a \<Rightarrow> error + 'b) \<Rightarrow> 'a list \<Rightarrow> error + 'b list" where
  "apply_col f [] = Inr []"
| "apply_col f (x # xs) =
     (case f x of
        Inl e \<Rightarrow> Inl e
      | Inr y \<Rightarrow> (case apply_col f xs of Inl e \<Rightarrow> Inl e | Inr ys \<Rightarrow> Inr (y # ys)))"

text \<open>A row with the two new columns set.\<close>

definition with_derived :: "fontaine \<Rightarrow> string \<Rightarrow> string \<Rightarrow> prepared" where
  "with_derived r t g =
     \<lparr>id_ratp = id_ratp r, ligne = ligne r, station = station r, longitude = longitude r,
      latitude = latitude r, id_idm = id_idm r, adresse = adresse r,
      code_postal = code_postal r, commune = commune r, num_acces = num_acces r,
      nom_acces = nom_acces r, zone_controlee = zone_controlee r, point_geo = point_geo r,
      type_ligne = t, region = g\<rparr>"

text \<open>Lines 39 to 44, column by column as the source has them.\<close>

definition derive_columns :: "fontaine list \<Rightarrow> error + prepared list" where
  "derive_columns df =
     (let df1 = map (\<lambda>r. r\<lparr>zone_controlee := fillna non_renseigne (zone_controlee r)\<rparr>) df;
          df2 = map (\<lambda>r. r\<lparr>nom_acces := fillna Non_specifie (nom_acces r)\<rparr>) df1;
          types = map (\<lambda>r. type_ligne_of (ligne r)) df2
      in case apply_col region_of (map code_postal df2) of
           Inl e \<Rightarrow> Inl e
         | Inr regions \<Rightarrow>
             Inr (map (\<lambda>(r, t, g). with_derived r t g) (zip df2 (zip types regions))))"

text \<open>The same computation seen one row at a time.\<close>

definition prepare_row :: "fontaine \<Rightarrow> error + prepared" where
  "prepare_row r =
     (case region_of (code_postal r) of
        Inl e \<Rightarrow> Inl e
      | Inr g \<Rightarrow>
          Inr (with_derived
                 (r\<lparr>zone_controlee := fillna non_renseigne (zone_controlee r),
                    nom_acces := fillna Non_specifie (nom_acces r)\<rparr>)
                 (type_ligne_of (ligne r)) g))"

text \<open>
  Line 47: \<open>df.sort_values('ligne')\<close>. On a column that holds a number and a text the call
  raises \<open>TypeError\<close>. Otherwise it returns the rows reordered so that the column ascends,
  missing cells last. The call leaves the sorting algorithm at pandas' default,
  \<open>kind='quicksort'\<close>, which pandas documents as not stable; which of the orders with an
  ascending column is returned is the library's choice, so the model is a relation between
  the frame and each result the call may have.
\<close>

definition sort_values_ligne :: "prepared list \<Rightarrow> error + prepared list \<Rightarrow> bool" where
  "sort_values_ligne df res =
     (if mixed (map ligne df) then res = Inl TypeError
      else (case res of
              Inl e \<Rightarrow> False
            | Inr out \<Rightarrow> mset out = mset df \<and> sorted (map ligne out)))"

text \<open>The whole of the preparation, from the rows read to an exception or a sorted frame.\<close>

definition load_and_prepare_data :: "fontaine list \<Rightarrow> error + prepared list \<Rightarrow> bool" where
  "load_and_prepare_data raw res =
     (case derive_columns raw of
        Inl e \<Rightarrow> res = Inl e
      | Inr df \<Rightarrow> sort_values_ligne df res)"

section \<open>The filters (lines 252 to 258)\<close>

definition Tous :: string where
  "Tous = ''Tous''"

definition Toutes :: string where
  "Toutes = ''Toutes''"

text \<open>
  \<open>df[df['ligne'].isin(selected_lines)]\<close>, then the two optional equality filters. Indexing
  with a boolean mask keeps the rows whose mask is true, in their order. A missing cell is
  equal to no string. The selected lines are values of the column \<open>ligne\<close>.
\<close>

definition df_filtered :: "cell list \<Rightarrow> string \<Rightarrow> string \<Rightarrow> prepared list \<Rightarrow> prepared list" where
  "df_filtered selected_lines selected_type selected_zone df =
     (let d1 = filter (\<lambda>r. ligne r \<in> set selected_lines) df;
          d2 = (if selected_type \<noteq> Tous then filter (\<lambda>r. type_ligne r = selected_type) d1 else d1);
          d3 = (if selected_zone \<noteq> Toutes
                then filter (\<lambda>r. zone_controlee r = Str selected_zone) d2 else d2)
      in d3)"

text \<open>\<open>Series.unique()\<close>: the distinct values, each at its first occurrence.\<close>

definition unique :: "'a list \<Rightarrow> 'a list" where
  "unique xs = rev (remdups (rev xs))"

text \<open>
  The default of the line selector (line 236): \<open>sorted(df['ligne'].unique())\<close>. Python's
  \<open>sorted\<close> raises \<open>TypeError\<close> when a text stands among cells that are not texts (a missing
  cell is a float). Among numbers a missing cell does not raise, but leaves the list in an
  order that is not this one; the filter asks only which lines are selected.
\<close>

definition all_lines :: "prepared list \<Rightarrow> error + cell list" where
  "all_lines df =
     (let u = unique (map ligne df)
      in if list_ex is_text u \<and> list_ex (\<lambda>c. \<not> is_text c) u then Inl TypeError
         else Inr (sort u))"

section \<open>The display order of the lines (\<open>sort_key\<close>, lines 101 to 108)\<close>

text \<open>
  \<open>sort_key\<close> begins with \<open>ligne = str(ligne)\<close>: what follows works on a text, which for a
  line held as a text is the line itself. The model of \<open>sort_key\<close> takes that text.

  \<open>str.isdigit()\<close> holds of a non-empty string whose characters are all digits. Below code
  point 256 the digits are \<open>0\<close> to \<open>9\<close> and the superscripts two, three and one
  (\<open>U+00B2\<close>, \<open>U+00B3\<close>, \<open>U+00B9\<close>).
\<close>

definition is_decimal :: "char \<Rightarrow> bool" where
  "is_decimal c \<longleftrightarrow> CHR ''0'' \<le> c \<and> c \<le> CHR ''9''"

definition isdigit_char :: "char \<Rightarrow> bool" where
  "isdigit_char c \<longleftrightarrow> is_decimal c \<or> c = CHR 0xB2 \<or> c = CHR 0xB3 \<or> c = CHR 0xB9"

definition isdigit :: "string \<Rightarrow> bool" where
  "isdigit s \<longleftrightarrow> s \<noteq> [] \<and> list_all isdigit_char s"

text \<open>
  \<open>int(s)\<close> for a string that passed \<open>isdigit\<close>: the superscript digits are not decimal
  digits and raise \<open>ValueError\<close>, and so does a string longer than the interpreter's limit
  on integer conversions, 4300 digits unless it is reconfigured.
\<close>

definition int_max_str_digits :: nat where
  "int_max_str_digits = 4300"

definition digit_value :: "char \<Rightarrow> nat" where
  "digit_value c = of_char c - 48"

definition decimal_value :: "string \<Rightarrow> nat" where
  "decimal_value s = foldl (\<lambda>n c. 10 * n + digit_value c) 0 s"

definition int_of_digits :: "string \<Rightarrow> error + nat" where
  "int_of_digits s =
     (if s = [] \<or> \<not> list_all is_decimal s then Inl ValueError
      else if length s > int_max_str_digits then Inl ValueError
      else Inr (decimal_value s))"

text \<open>
  The floats are IEEE doubles: 53 significant bits, rounding to the nearest, ties to the
  even one. \<open>round53 n\<close> is the natural number with at most 53 significant bits that is
  nearest to \<open>n\<close>.
\<close>

fun bit_length :: "nat \<Rightarrow> nat" where
  "bit_length n = (if n = 0 then 0 else Suc (bit_length (n div 2)))"

declare bit_length.simps [simp del]

definition round53 :: "nat \<Rightarrow> nat" where
  "round53 n =
     (let e = bit_length n - 53; q = n div 2 ^ e; r = n mod 2 ^ e
      in (if 2 * r > 2 ^ e \<or> (2 * r = 2 ^ e \<and> odd q) then q + 1 else q) * 2 ^ e)"

text \<open>
  \<open>n + 0.5\<close> for a Python \<open>int\<close> \<open>n \<ge> 0\<close>. The integer is first converted to the nearest
  double \<open>x\<close>, with \<open>OverflowError\<close> when that is beyond the doubles; then \<open>x + 0.5\<close> is
  rounded to a double. As \<open>x + 0.5 = (2 x + 1) / 2\<close> and halving a double is exact, the sum
  is \<open>round53 (2 x + 1) / 2\<close>.
\<close>

definition int_plus_half :: "nat \<Rightarrow> error + rat" where
  "int_plus_half n =
     (let x = round53 n
      in if x \<ge> 2 ^ 1024 then Inl OverflowError else Inr (of_nat (round53 (2 * x + 1)) / 2))"

text \<open>\<open>s[:-3]\<close> and \<open>s.endswith(t)\<close>.\<close>

definition drop_last3 :: "string \<Rightarrow> string" where
  "drop_last3 s = take (length s - 3) s"

definition endswith :: "string \<Rightarrow> string \<Rightarrow> bool" where
  "endswith s t \<longleftrightarrow> length t \<le> length s \<and> drop (length s - length t) s = t"

text \<open>
  The key is a pair: \<open>(0, n)\<close> with \<open>n\<close> an \<open>int\<close> or a \<open>float\<close>, or \<open>(1, s)\<close> with
  \<open>s\<close> a string. \<open>NumKey x\<close> is the pair \<open>(0, x)\<close> and \<open>StrKey s\<close> the pair \<open>(1, s)\<close>.
  Python compares pairs component by component, an \<open>int\<close> with a \<open>float\<close> by their exact
  values, and strings lexicographically.
\<close>

datatype key = NumKey rat | StrKey string

instantiation key :: linorder
begin

fun less_eq_key :: "key \<Rightarrow> key \<Rightarrow> bool" where
  "less_eq_key (NumKey a) (NumKey b) \<longleftrightarrow> a \<le> b"
| "less_eq_key (NumKey a) (StrKey t) \<longleftrightarrow> True"
| "less_eq_key (StrKey s) (NumKey b) \<longleftrightarrow> False"
| "less_eq_key (StrKey s) (StrKey t) \<longleftrightarrow> s \<le> t"

definition less_key :: "key \<Rightarrow> key \<Rightarrow> bool" where
  "less_key x y \<longleftrightarrow> x \<le> y \<and> \<not> y \<le> x"

instance
proof
  fix x y z :: key
  show "x < y \<longleftrightarrow> x \<le> y \<and> \<not> y \<le> x"
    by (simp add: less_key_def)
  show "x \<le> x"
    by (cases x) simp_all
  show "x \<le> y \<Longrightarrow> y \<le> z \<Longrightarrow> x \<le> z"
    by (cases x; cases y; cases z) auto
  show "x \<le> y \<Longrightarrow> y \<le> x \<Longrightarrow> x = y"
    by (cases x; cases y) auto
  show "x \<le> y \<or> y \<le> x"
    by (cases x; cases y) auto
qed

end

definition sort_key_ligne :: "string \<Rightarrow> error + key" where
  "sort_key_ligne l =
     (if isdigit l then
        (case int_of_digits l of Inl e \<Rightarrow> Inl e | Inr n \<Rightarrow> Inr (NumKey (of_nat n)))
      else if isdigit (drop_last3 l) \<and> endswith l ''bis'' then
        (case int_of_digits (drop_last3 l) of
           Inl e \<Rightarrow> Inl e
         | Inr n \<Rightarrow> (case int_plus_half n of Inl e \<Rightarrow> Inl e | Inr x \<Rightarrow> Inr (NumKey x)))
      else Inr (StrKey l))"

text \<open>
  Line 123: \<open>sorted(lines, key=sort_key)\<close>. The keys are computed first, one per element,
  and an exception in one of them leaves the call; the sort is stable.
\<close>

definition sorted_by_sort_key :: "string list \<Rightarrow> error + string list" where
  "sorted_by_sort_key ls =
     (case apply_col sort_key_ligne ls of
        Inl e \<Rightarrow> Inl e
      | Inr ks \<Rightarrow> Inr (map snd (sort_key fst (zip ks ls))))"

section \<open>The counts (lines 53, 150, 166, 303 and 320)\<close>

text \<open>
  \<open>Series.value_counts()\<close> gives each distinct value of the column with the number of its
  occurrences, the larger counts first. The order of values with equal counts is left to the
  library (the sort of the counts is again the default \<open>quicksort\<close>), so this too is a
  relation: every list in it is one the call may return. Missing cells are not counted
  (\<open>dropna=True\<close>).
\<close>

definition value_counts :: "'a list \<Rightarrow> ('a \<times> nat) list \<Rightarrow> bool" where
  "value_counts col vc \<longleftrightarrow>
     distinct (map fst vc) \<and> set (map fst vc) = set col
     \<and> list_all (\<lambda>(k, c). c = count_list col k) vc
     \<and> sorted_wrt (\<ge>) (map snd vc)"

definition dropna :: "cell list \<Rightarrow> cell list" where
  "dropna col = filter (\<lambda>c. c \<noteq> NaN) col"

text \<open>
  \<open>Series.sort_index()\<close>; the index of a count is made of distinct values, so its sorted
  order is one. It raises on an index that holds a number and a text.
\<close>

definition sort_index :: "(cell \<times> nat) list \<Rightarrow> error + (cell \<times> nat) list" where
  "sort_index vc = (if mixed (map fst vc) then Inl TypeError else Inr (sort_key fst vc))"

text \<open>\<open>Series.head(n)\<close>.\<close>

definition head :: "nat \<Rightarrow> 'a list \<Rightarrow> 'a list" where
  "head n xs = take n xs"

text \<open>
  Line 53 is \<open>df['ligne'].value_counts().sort_index()\<close> and line 150 is
  \<open>df['zone_controlee'].value_counts()\<close>, both on the filtered frame; line 320 is
  \<open>df['ligne'].value_counts().head(10)\<close> on the whole frame.

  One result of \<open>value_counts\<close>, for reference: the values in the order of their first
  occurrence, put in descending order of count by a stable sort, so that values of equal
  count stay in the order of their first occurrence.
\<close>

definition counts_first_seen :: "'a list \<Rightarrow> ('a \<times> nat) list" where
  "counts_first_seen col =
     sort_key (\<lambda>p. - int (snd p)) (map (\<lambda>k. (k, count_list col k)) (unique col))"

section \<open>Small frames to run the program on\<close>

definition en_zone_controlee :: string where
  "en_zone_controlee = ''en zone contr'' @ [CHR 0xF4] @ ''l'' @ [CHR 0xE9] @ ''e''"

text \<open>A row as read from the file, with the columns the program never looks at left empty.\<close>

definition example_row :: "cell \<Rightarrow> string \<Rightarrow> cell \<Rightarrow> cell \<Rightarrow> fontaine" where
  "example_row l s p z =
     \<lparr>id_ratp = NaN, ligne = l, station = Str s, longitude = NaN, latitude = NaN,
      id_idm = NaN, adresse = NaN, code_postal = p, commune = NaN, num_acces = NaN,
      nom_acces = NaN, zone_controlee = z, point_geo = NaN\<rparr>"

text \<open>The same row once prepared, with zone \<open>z\<close>, type \<open>t\<close> and region \<open>g\<close>.\<close>

definition example_prepared ::
  "cell \<Rightarrow> string \<Rightarrow> cell \<Rightarrow> string \<Rightarrow> string \<Rightarrow> string \<Rightarrow> prepared" where
  "example_prepared l s p z t g =
     with_derived ((example_row l s p (Str z))\<lparr>nom_acces := Str Non_specifie\<rparr>) t g"

text \<open>
  Three rows: line 1 in Paris, line A in the suburbs without a zone, line 14 in Paris. With
  the line A among them the lines are texts.
\<close>

definition example_raw :: "fontaine list" where
  "example_raw =
     [example_row (Str ''1'') ''Bastille'' (Num 75010) (Str en_zone_controlee),
      example_row (Str ''A'') ''Vincennes'' (Num 93100) NaN,
      example_row (Str ''14'') ''Bercy'' (Num 75015) (Str en_zone_controlee)]"

definition example_df :: "prepared list" where
  "example_df =
     [example_prepared (Str ''1'') ''Bastille'' (Num 75010) en_zone_controlee Metro ''Paris'',
      example_prepared (Str ''14'') ''Bercy'' (Num 75015) en_zone_controlee Metro ''Paris'',
      example_prepared (Str ''A'') ''Vincennes'' (Num 93100) non_renseigne ''RER'' ''Banlieue'']"




text \<open>
  A file whose lines are all numbers, 10 then 2: the column holds the numbers. The frame
  prepared from it, and the same two rows in the order of the lines read as texts.
\<close>

definition digits_raw :: "fontaine list" where
  "digits_raw =
     [example_row (Num 10) ''Odeon'' (Num 75006) NaN,
      example_row (Num 2) ''Pigalle'' (Num 75018) NaN]"

definition digits_df :: "prepared list" where
  "digits_df =
     [example_prepared (Num 2) ''Pigalle'' (Num 75018) non_renseigne Metro ''Paris'',
      example_prepared (Num 10) ''Odeon'' (Num 75006) non_renseigne Metro ''Paris'']"

text \<open>
  Three fountains, of the lines A, 2 and 10, held as texts because of the line A, and the
  frame prepared from them.
\<close>

definition three_lines_raw :: "fontaine list" where
  "three_lines_raw =
     [example_row (Str ''A'') ''Nation'' (Num 75012) NaN,
      example_row (Str ''2'') ''Pigalle'' (Num 75018) NaN,
      example_row (Str ''10'') ''Odeon'' (Num 75006) NaN]"

definition three_lines_df :: "prepared list" where
  "three_lines_df =
     [example_prepared (Str ''10'') ''Odeon'' (Num 75006) non_renseigne Metro ''Paris'',
      example_prepared (Str ''2'') ''Pigalle'' (Num 75018) non_renseigne Metro ''Paris'',
      example_prepared (Str ''A'') ''Nation'' (Num 75012) non_renseigne ''RER'' ''Paris'']"

text \<open>
  Eighteen fountains of line A, and the same rows once prepared, taken in another order.
\<close>

definition tied_stations :: "string list" where
  "tied_stations =
     [''S00'', ''S01'', ''S02'', ''S03'', ''S04'', ''S05'', ''S06'', ''S07'', ''S08'',
      ''S09'', ''S10'', ''S11'', ''S12'', ''S13'', ''S14'', ''S15'', ''S16'', ''S17'']"

definition tied_raw :: "fontaine list" where
  "tied_raw = map (\<lambda>s. example_row (Str ''A'') s (Num 94300) NaN) tied_stations"

definition tied_order :: "nat list" where
  "tied_order = [0, 15, 14, 13, 12, 11, 10, 9, 8, 7, 6, 5, 4, 3, 2, 1, 16, 17]"

definition tied_out :: "prepared list" where
  "tied_out =
     map (\<lambda>i. example_prepared (Str ''A'') (tied_stations ! i) (Num 94300) non_renseigne
                ''RER'' ''Banlieue'') tied_order"

section \<open>Preparation\<close>

lemma apply_col_all2:
  "apply_col f xs = Inr ys \<Longrightarrow> list_all2 (\<lambda>x y. f x = Inr y) xs ys"
  by (induction xs arbitrary: ys) (auto split: sum.splits)



lemma apply_col_map: "apply_col f (map g xs) = apply_col (\<lambda>x. f (g x)) xs"
  by (induction xs) (auto split: sum.splits)

lemma apply_col_zip:
  "(case apply_col h xs of
      Inl e \<Rightarrow> Inl e
    | Inr gs \<Rightarrow> Inr (map (\<lambda>(r, t, g). k r t g) (zip (map F xs) (zip (map T xs) gs))))
   = apply_col (\<lambda>r. case h r of Inl e \<Rightarrow> Inl e | Inr g \<Rightarrow> Inr (k (F r) (T r) g)) xs"
  by (induction xs) (auto split: sum.splits)

lemma derive_columns_rowwise: "derive_columns df = apply_col prepare_row df"
proof -
  have "derive_columns df =
      (case apply_col (\<lambda>r. region_of (code_postal r)) df of
         Inl e \<Rightarrow> Inl e
       | Inr gs \<Rightarrow>
           Inr (map (\<lambda>(r, t, g). with_derived r t g)
                  (zip (map (\<lambda>r. r\<lparr>zone_controlee := fillna non_renseigne (zone_controlee r),
                                    nom_acces := fillna Non_specifie (nom_acces r)\<rparr>) df)
                       (zip (map (\<lambda>r. type_ligne_of (ligne r)) df) gs))))"
    by (simp add: derive_columns_def Let_def o_def apply_col_map cong: sum.case_cong)
  also have "\<dots> = apply_col prepare_row df"
    unfolding apply_col_zip prepare_row_def ..
  finally show ?thesis .
qed

lemma derive_rows:
  "derive_columns raw = Inr df \<Longrightarrow> list_all2 (\<lambda>r0 r. prepare_row r0 = Inr r) raw df"
  by (simp add: derive_columns_rowwise apply_col_all2)

lemma list_all2_right:
  "list_all2 P xs ys \<Longrightarrow> y \<in> set ys \<Longrightarrow> \<exists>x\<in>set xs. P x y"
  by (induction rule: list_all2_induct) auto

lemma list_all2_left:
  "list_all2 P xs ys \<Longrightarrow> x \<in> set xs \<Longrightarrow> \<exists>y\<in>set ys. P x y"
  by (induction rule: list_all2_induct) auto

lemma mset_map_eq: "mset xs = mset ys \<Longrightarrow> mset (map f xs) = mset (map f ys)"
  by simp

lemma load_Inr:
  assumes "load_and_prepare_data raw (Inr out)"
  obtains df where "derive_columns raw = Inr df" "mset out = mset df" "sorted (map ligne out)"
    "\<not> mixed (map ligne df)"
  using assms
  by (auto simp: load_and_prepare_data_def sort_values_ligne_def split: sum.splits if_splits)


lemma load_row:
  assumes "load_and_prepare_data raw (Inr out)" "r \<in> set out"
  shows "\<exists>r0\<in>set raw. prepare_row r0 = Inr r"
proof -
  from assms(1) obtain df where d: "derive_columns raw = Inr df" "mset out = mset df"
    by (rule load_Inr)
  from d(2) have "set out = set df"
    by (rule mset_eq_setD)
  with assms(2) have "r \<in> set df"
    by simp
  with derive_rows [OF d(1)] show ?thesis
    by (rule list_all2_right)
qed

lemma load_raw_row:
  assumes "load_and_prepare_data raw (Inr out)" "r0 \<in> set raw"
  shows "\<exists>r\<in>set out. prepare_row r0 = Inr r"
proof -
  from assms(1) obtain df where d: "derive_columns raw = Inr df" "mset out = mset df"
    by (rule load_Inr)
  from d(2) have s: "set out = set df"
    by (rule mset_eq_setD)
  from derive_rows [OF d(1)] assms(2) have "\<exists>r\<in>set df. prepare_row r0 = Inr r"
    by (rule list_all2_left)
  with s show ?thesis
    by simp
qed

lemma load_sorted: "load_and_prepare_data raw (Inr df) \<Longrightarrow> sorted (map ligne df)"
  by (erule load_Inr)

lemma load_stable:
  "derive_columns raw = Inr df \<Longrightarrow> \<not> mixed (map ligne df) \<Longrightarrow>
   load_and_prepare_data raw (Inr (sort_key ligne df))"
  by (simp add: load_and_prepare_data_def sort_values_ligne_def)

lemma derive_length: "derive_columns raw = Inr df \<Longrightarrow> length df = length raw"
  using derive_rows list_all2_lengthD by fastforce

lemma RER_not_Metro: "''RER'' \<noteq> Metro"
  by (simp add: Metro_def)

lemma prepare_row_fields:
  assumes "prepare_row r0 = Inr r"
  shows "ligne r = ligne r0" "code_postal r = code_postal r0"
    "type_ligne r = type_ligne_of (ligne r0)" "region_of (code_postal r0) = Inr (region r)"
    "zone_controlee r = fillna non_renseigne (zone_controlee r0)"
    "nom_acces r = fillna Non_specifie (nom_acces r0)"
  using assms by (auto simp: prepare_row_def with_derived_def split: sum.splits)

lemma derive_ligne:
  assumes "derive_columns raw = Inr df"
  shows "map ligne df = map ligne raw"
proof -
  have "list_all2 (\<lambda>r0 r. prepare_row r0 = Inr r) raw df \<Longrightarrow> map ligne df = map ligne raw"
    by (induction rule: list_all2_induct) (simp_all add: prepare_row_fields)
  then show ?thesis
    using derive_rows [OF assms] by simp
qed

lemma fillna_eq: "fillna d c = (if c = NaN then Str d else c)"
  by (cases c) simp_all

lemma fillna_not_NaN: "fillna d c \<noteq> NaN"
  by (cases c) simp_all

lemma truncate_prepare_row:
  "prepare_row r0 = Inr r \<Longrightarrow>
   fontaine.truncate r =
     r0\<lparr>zone_controlee := (if zone_controlee r0 = NaN then Str non_renseigne else zone_controlee r0),
        nom_acces := (if nom_acces r0 = NaN then Str Non_specifie else nom_acces r0)\<rparr>"
  by (cases r0) (auto simp: prepare_row_def with_derived_def fontaine.truncate_def fillna_eq split: sum.splits)

lemma derive_truncate:
  assumes "list_all2 (\<lambda>r0 r. prepare_row r0 = Inr r) raw df"
  shows "map fontaine.truncate df =
     map (\<lambda>r0. r0\<lparr>zone_controlee :=
                     (if zone_controlee r0 = NaN then Str non_renseigne else zone_controlee r0),
                   nom_acces :=
                     (if nom_acces r0 = NaN then Str Non_specifie else nom_acces r0)\<rparr>) raw"
  using assms by (induction rule: list_all2_induct) (simp_all add: truncate_prepare_row)




lemma example_derive:
  "derive_columns example_raw = Inr [example_df ! 0, example_df ! 2, example_df ! 1]"
  by (simp add: derive_columns_def example_raw_def example_df_def example_row_def
      example_prepared_def with_derived_def type_ligne_of_def Metro_def)

lemma example_load: "load_and_prepare_data example_raw (Inr example_df)"
  apply (simp add: load_and_prepare_data_def example_derive sort_values_ligne_def)
  apply (simp add: example_df_def example_prepared_def with_derived_def example_row_def
      mixed_def)
  done

lemma digits_load: "load_and_prepare_data digits_raw (Inr digits_df)"
  by (simp add: load_and_prepare_data_def derive_columns_def sort_values_ligne_def mixed_def
      digits_raw_def digits_df_def example_row_def example_prepared_def with_derived_def
      type_ligne_of_def)

lemma digits_not_rev: "\<not> load_and_prepare_data digits_raw (Inr (rev digits_df))"
  by (simp add: load_and_prepare_data_def derive_columns_def sort_values_ligne_def mixed_def
      digits_raw_def digits_df_def example_row_def example_prepared_def with_derived_def
      type_ligne_of_def)

lemma tied_derive:
  "derive_columns (map (\<lambda>s. example_row (Str ''A'') s (Num 94300) NaN) ss) =
     Inr (map (\<lambda>s. example_prepared (Str ''A'') s (Num 94300) non_renseigne ''RER''
                  ''Banlieue'') ss)"
  unfolding derive_columns_rowwise
  by (induction ss)
    (simp_all add: prepare_row_def example_row_def example_prepared_def with_derived_def
      type_ligne_of_def)

lemma tied_perm: "mset (map (\<lambda>i. tied_stations ! i) tied_order) = mset tied_stations"
  by (simp add: tied_order_def tied_stations_def)

lemma ligne_example_prepared: "ligne (example_prepared l s p z t g) = l"
  by (simp add: example_prepared_def with_derived_def example_row_def)

lemma not_mixed_texts: "\<forall>c\<in>set col. \<not> is_num c \<Longrightarrow> \<not> mixed col"
  by (simp add: mixed_def list_ex_iff)

lemma tied_load: "load_and_prepare_data tied_raw (Inr tied_out)"
proof -
  let ?P = "\<lambda>s. example_prepared (Str ''A'') s (Num 94300) non_renseigne ''RER'' ''Banlieue''"
  have e: "tied_out = map ?P (map (\<lambda>i. tied_stations ! i) tied_order)"
    by (simp add: tied_out_def)
  have m: "mset tied_out = mset (map ?P tied_stations)"
    unfolding e using tied_perm by (rule mset_map_eq)
  have l: "map ligne tied_out = map (\<lambda>i. Str ''A'') tied_order"
    by (simp add: tied_out_def ligne_example_prepared)
  have s: "sorted (map ligne tied_out)"
    unfolding l by (simp add: tied_order_def)
  have n: "\<not> mixed (map ligne (map ?P tied_stations))"
    by (rule not_mixed_texts) (simp add: ligne_example_prepared)
  have d: "derive_columns tied_raw = Inr (map ?P tied_stations)"
    by (simp add: tied_raw_def tied_derive)
  show ?thesis
    unfolding load_and_prepare_data_def d sort_values_ligne_def using m s n by simp
qed

lemma tied_reordered: "map station tied_out \<noteq> map station tied_raw"
  by (simp add: tied_out_def tied_raw_def tied_order_def tied_stations_def
      example_prepared_def with_derived_def example_row_def)

text \<open>
  C2: in a prepared frame the type of a row is \<open>RER\<close> exactly when its line is one of A, B,
  C, D, E, and is the Metro word otherwise; its region is \<open>Paris\<close> exactly when its postal
  code is a number from 75000 up to, not including, 76000, and is \<open>Banlieue\<close> otherwise.
  Both are functions of the line and of the postal code alone.
\<close>

theorem derived_fields:
  assumes "load_and_prepare_data raw (Inr df)" and "r \<in> set df"
  shows "(type_ligne r = ''RER'' \<longleftrightarrow>
        ligne r \<in> {Str ''A'', Str ''B'', Str ''C'', Str ''D'', Str ''E''})
    \<and> (type_ligne r \<noteq> ''RER'' \<longrightarrow> type_ligne r = Metro)
    \<and> (region r = ''Paris'' \<longleftrightarrow> (\<exists>x. code_postal r = Num x \<and> 75000 \<le> x \<and> x < 76000))
    \<and> (region r \<noteq> ''Paris'' \<longrightarrow> region r = ''Banlieue'')
    \<and> type_ligne r = type_ligne_of (ligne r)
    \<and> region_of (code_postal r) = Inr (region r)"
proof -
  from load_row [OF assms] obtain r0 where r0: "prepare_row r0 = Inr r"
    by blast
  note f = prepare_row_fields [OF r0]
  have t: "type_ligne r = type_ligne_of (ligne r)"
    by (simp add: f)
  have g: "region_of (code_postal r) = Inr (region r)"
    by (simp add: f)
  have 1: "type_ligne r = ''RER'' \<longleftrightarrow>
      ligne r \<in> {Str ''A'', Str ''B'', Str ''C'', Str ''D'', Str ''E''}"
    unfolding t type_ligne_of_def using RER_not_Metro by auto
  have 2: "type_ligne r \<noteq> ''RER'' \<longrightarrow> type_ligne r = Metro"
    unfolding t type_ligne_of_def by auto
  have 3: "region r = ''Paris'' \<longleftrightarrow> (\<exists>x. code_postal r = Num x \<and> 75000 \<le> x \<and> x < 76000)"
    using g by (cases "code_postal r") (auto split: if_splits)
  have 4: "region r \<noteq> ''Paris'' \<longrightarrow> region r = ''Banlieue''"
    using g by (cases "code_postal r") (auto split: if_splits)
  from 1 2 3 4 t g show ?thesis
    by blast
qed

theorem derived_fields_witness:
  "load_and_prepare_data example_raw (Inr example_df) \<and> example_df ! 2 \<in> set example_df
   \<and> ligne (example_df ! 2) = Str ''A'' \<and> type_ligne (example_df ! 2) = ''RER''
   \<and> code_postal (example_df ! 2) = Num 93100 \<and> region (example_df ! 2) = ''Banlieue''
   \<and> (type_ligne (example_df ! 2) = ''RER'' \<longleftrightarrow>
        ligne (example_df ! 2) \<in> {Str ''A'', Str ''B'', Str ''C'', Str ''D'', Str ''E''})
   \<and> (region (example_df ! 2) = ''Paris'' \<longleftrightarrow>
        (\<exists>x. code_postal (example_df ! 2) = Num x \<and> 75000 \<le> x \<and> x < 76000))"
proof -
  have m: "example_df ! 2 \<in> set example_df"
    by (simp add: example_df_def)
  have v: "ligne (example_df ! 2) = Str ''A''" "type_ligne (example_df ! 2) = ''RER''"
    "code_postal (example_df ! 2) = Num 93100" "region (example_df ! 2) = ''Banlieue''"
    by (simp_all add: example_df_def example_prepared_def with_derived_def example_row_def)
  from derived_fields [OF example_load m] example_load m v show ?thesis
    by blast
qed

text \<open>
  C4: in a prepared frame no row has a missing zone or a missing access name. The rows are
  the rows read, each with a missing zone replaced by the "non renseigne" word and a missing
  access name by the "Non specifie" word, and every other column as it was read.
\<close>

theorem defaults_filled:
  assumes "load_and_prepare_data raw (Inr df)"
  shows "(\<forall>r\<in>set df. zone_controlee r \<noteq> NaN \<and> nom_acces r \<noteq> NaN)
    \<and> mset (map fontaine.truncate df) =
        mset (map (\<lambda>r0. r0\<lparr>zone_controlee :=
                     (if zone_controlee r0 = NaN then Str non_renseigne else zone_controlee r0),
                   nom_acces :=
                     (if nom_acces r0 = NaN then Str Non_specifie else nom_acces r0)\<rparr>) raw)
    \<and> (\<forall>r0\<in>set raw. zone_controlee r0 = NaN \<longrightarrow>
          (\<exists>r\<in>set df. zone_controlee r = Str non_renseigne \<and> station r = station r0
             \<and> ligne r = ligne r0))"
proof (intro conjI ballI impI)
  fix r assume "r \<in> set df"
  with assms obtain r0 where "prepare_row r0 = Inr r"
    using load_row by blast
  then show "zone_controlee r \<noteq> NaN" "nom_acces r \<noteq> NaN"
    by (simp_all add: prepare_row_fields fillna_not_NaN)
next
  from assms obtain df0 where d: "derive_columns raw = Inr df0" "mset df = mset df0"
    by (rule load_Inr)
  have "mset (map fontaine.truncate df) = mset (map fontaine.truncate df0)"
    using d(2) by (rule mset_map_eq)
  then show "mset (map fontaine.truncate df) =
        mset (map (\<lambda>r0. r0\<lparr>zone_controlee :=
                     (if zone_controlee r0 = NaN then Str non_renseigne else zone_controlee r0),
                   nom_acces :=
                     (if nom_acces r0 = NaN then Str Non_specifie else nom_acces r0)\<rparr>) raw)"
    by (simp add: derive_truncate [OF derive_rows [OF d(1)]])
next
  fix r0 assume r0: "r0 \<in> set raw" "zone_controlee r0 = NaN"
  from load_raw_row [OF assms r0(1)] obtain r where r: "r \<in> set df" "prepare_row r0 = Inr r"
    by blast
  have "zone_controlee r = Str non_renseigne"
    using r(2) r0(2) by (simp add: prepare_row_fields)
  moreover have "station r = station r0" "ligne r = ligne r0"
    using r(2) by (auto simp: prepare_row_def with_derived_def split: sum.splits)
  ultimately show "\<exists>r\<in>set df. zone_controlee r = Str non_renseigne \<and> station r = station r0
             \<and> ligne r = ligne r0"
    using r(1) by blast
qed

theorem defaults_filled_witness:
  "load_and_prepare_data example_raw (Inr example_df)
   \<and> zone_controlee (example_raw ! 1) = NaN \<and> nom_acces (example_raw ! 1) = NaN
   \<and> zone_controlee (example_df ! 2) = Str non_renseigne
   \<and> nom_acces (example_df ! 2) = Str Non_specifie
   \<and> zone_controlee (example_df ! 0) \<noteq> NaN \<and> nom_acces (example_df ! 0) \<noteq> NaN
   \<and> zone_controlee (example_df ! 1) \<noteq> NaN \<and> nom_acces (example_df ! 1) \<noteq> NaN"
proof -
  have v: "zone_controlee (example_raw ! 1) = NaN" "nom_acces (example_raw ! 1) = NaN"
    "zone_controlee (example_df ! 2) = Str non_renseigne"
    "nom_acces (example_df ! 2) = Str Non_specifie"
    by (simp_all add: example_raw_def example_df_def example_prepared_def with_derived_def
        example_row_def)
  have m: "example_df ! 0 \<in> set example_df" "example_df ! 1 \<in> set example_df"
    by (simp_all add: example_df_def)
  from defaults_filled [OF example_load] example_load v m show ?thesis
    by blast
qed

text \<open>
  C5, as the program has it. The prepared frame holds the derived rows, each as often as it
  was derived, and its lines are the lines read put in ascending order: numbers by their
  value, texts by comparison of strings, missing lines last. The lines are numbers when
  every line of the file is a number, and texts otherwise. Rows of different lines have one
  possible order, so with no line repeated the result is one; the order of rows of the same
  line is left to the library, the order read being one of its possible results.
\<close>

theorem prepare_sorted:
  "(load_and_prepare_data raw (Inr out) \<longrightarrow>
      (\<exists>df. derive_columns raw = Inr df \<and> mset out = mset df)
      \<and> map ligne out = sort (map ligne raw)
      \<and> length out = length raw
      \<and> \<not> mixed (map ligne raw)
      \<and> (distinct (map ligne raw) \<longrightarrow>
           (\<forall>out'. load_and_prepare_data raw (Inr out') \<longrightarrow> out' = out)))
   \<and> (derive_columns raw = Inr df' \<and> \<not> mixed (map ligne raw) \<longrightarrow>
        load_and_prepare_data raw (Inr (sort_key ligne df')))
   \<and> (Num a \<le> Num b \<longleftrightarrow> a \<le> b) \<and> (Str s \<le> Str t \<longleftrightarrow> s \<le> t) \<and> c \<le> NaN"
proof (intro conjI impI allI)
  assume l: "load_and_prepare_data raw (Inr out)"
  then obtain df where d: "derive_columns raw = Inr df" "mset out = mset df"
    "sorted (map ligne out)" "\<not> mixed (map ligne df)"
    by (rule load_Inr)
  note k = derive_ligne [OF d(1)]
  show "\<exists>df. derive_columns raw = Inr df \<and> mset out = mset df"
    using d by blast
  have "mset (map ligne out) = mset (map ligne raw)"
    using mset_map_eq [OF d(2), of ligne] by (simp only: k)
  then have "sort (map ligne raw) = map ligne out"
    using d(3) by (rule properties_for_sort)
  then show "map ligne out = sort (map ligne raw)"
    by (rule sym)
  have "length out = length df"
    using d(2) by (rule mset_eq_length)
  then show "length out = length raw"
    by (simp add: derive_length [OF d(1)])
  show "\<not> mixed (map ligne raw)"
    using d(4) unfolding k .
  fix out' assume u: "distinct (map ligne raw)" and l': "load_and_prepare_data raw (Inr out')"
  from l' obtain df2 where d': "derive_columns raw = Inr df2" "mset out' = mset df2"
    "sorted (map ligne out')"
    by (rule load_Inr)
  from d(1) d'(1) have "df2 = df"
    by simp
  with d' have m': "mset out' = mset df"
    by simp
  have i: "inj_on ligne (set df)"
    using u by (simp only: k [symmetric] distinct_map)
  have "sort_key ligne df = out"
    using d(2) [symmetric] i d(3) by (rule sort_key_inj_key_eq)
  moreover have "sort_key ligne df = out'"
    using m' [symmetric] i d'(3) by (rule sort_key_inj_key_eq)
  ultimately show "out' = out"
    by simp
next
  assume a: "derive_columns raw = Inr df' \<and> \<not> mixed (map ligne raw)"
  then have d: "derive_columns raw = Inr df'"
    by simp
  have "\<not> mixed (map ligne df')"
    using a by (simp add: derive_ligne [OF d])
  with d show "load_and_prepare_data raw (Inr (sort_key ligne df'))"
    by (rule load_stable)
next
  show "Num a \<le> Num b \<longleftrightarrow> a \<le> b" "Str s \<le> Str t \<longleftrightarrow> s \<le> t"
    by simp_all
  show "c \<le> NaN"
    by (cases c) simp_all
qed

theorem prepare_sorted_witness:
  "load_and_prepare_data example_raw (Inr example_df)
   \<and> map ligne example_raw = [Str ''1'', Str ''A'', Str ''14'']
   \<and> map ligne example_df = [Str ''1'', Str ''14'', Str ''A'']
   \<and> map ligne example_df = sort (map ligne example_raw)
   \<and> length example_df = length example_raw
   \<and> distinct (map ligne example_raw)
   \<and> derive_columns example_raw = Inr [example_df ! 0, example_df ! 2, example_df ! 1]
   \<and> \<not> mixed (map ligne example_raw)
   \<and> load_and_prepare_data example_raw
        (Inr (sort_key ligne [example_df ! 0, example_df ! 2, example_df ! 1]))
   \<and> sort_key ligne [example_df ! 0, example_df ! 2, example_df ! 1] = example_df"
proof -
  have v: "map ligne example_raw = [Str ''1'', Str ''A'', Str ''14'']"
    "map ligne example_df = [Str ''1'', Str ''14'', Str ''A'']"
    by (simp_all add: example_raw_def example_df_def example_prepared_def with_derived_def
        example_row_def)
  have u: "distinct (map ligne example_raw)"
    by (simp add: v)
  have n: "\<not> mixed (map ligne example_raw)"
    by (simp add: v mixed_def)
  note t = prepare_sorted [of example_raw example_df
      "[example_df ! 0, example_df ! 2, example_df ! 1]"]
  have 1: "map ligne example_df = sort (map ligne example_raw)"
    "length example_df = length example_raw"
    using t example_load by blast+
  have 2: "load_and_prepare_data example_raw
        (Inr (sort_key ligne [example_df ! 0, example_df ! 2, example_df ! 1]))"
    using t example_derive n by blast
  have "\<forall>out'. load_and_prepare_data example_raw (Inr out') \<longrightarrow> out' = example_df"
    using t example_load u by blast
  with 2 have 3: "sort_key ligne [example_df ! 0, example_df ! 2, example_df ! 1] = example_df"
    by blast
  from example_load v 1 u example_derive n 2 3 show ?thesis
    by blast
qed

text \<open>
  C5 as stated has the rows in the order of their lines compared as strings, and rows of
  one line in the order read. For the file whose lines are 10 and 2, the lines are numbers
  and the prepared frame has line 2 before line 10, not the reverse, though as strings 10
  comes before 2. For eighteen rows of line A, the frame \<open>tied_out\<close> is a result of the
  preparation and its stations are not in the order read.
\<close>

theorem prepare_not_lexical_nor_stable:
  "map ligne digits_raw = [Num 10, Num 2]
   \<and> load_and_prepare_data digits_raw (Inr digits_df)
   \<and> map ligne digits_df = [Num 2, Num 10]
   \<and> \<not> load_and_prepare_data digits_raw (Inr (rev digits_df))
   \<and> ''10'' < ''2''
   \<and> load_and_prepare_data tied_raw (Inr tied_out)
   \<and> map station tied_out \<noteq> map station tied_raw"
proof -
  have "map ligne digits_raw = [Num 10, Num 2]" "map ligne digits_df = [Num 2, Num 10]"
    by (simp_all add: digits_raw_def digits_df_def example_prepared_def with_derived_def
        example_row_def)
  moreover have "''10'' < ''2''"
    by simp
  ultimately show ?thesis
    using digits_load digits_not_rev tied_load tied_reordered by blast
qed




section \<open>Filtering\<close>

lemma df_filtered_eq:
  "df_filtered ls t z df =
     filter (\<lambda>r. ligne r \<in> set ls \<and> (t = Tous \<or> type_ligne r = t)
                 \<and> (z = Toutes \<or> zone_controlee r = Str z)) df"
  by (auto simp: df_filtered_def Let_def intro: filter_cong)

lemma subseq_filter_weaken:
  assumes "\<And>x. x \<in> set xs \<Longrightarrow> P x \<Longrightarrow> Q x"
  shows "subseq (filter P xs) (filter Q xs)"
proof -
  have "filter P xs = filter P (filter Q xs)"
    using assms by (auto intro: filter_cong)
  then show ?thesis
    by (metis subseq_filter_left)
qed

lemma set_unique: "set (unique xs) = set xs"
  by (simp add: unique_def)

lemma distinct_unique: "distinct (unique xs)"
  by (simp add: unique_def)

lemma all_lines_set: "all_lines df = Inr la \<Longrightarrow> set la = ligne ` set df"
  by (auto simp: all_lines_def Let_def set_unique split: if_splits)

lemma all_lines_total:
  assumes "(\<forall>r\<in>set df. is_text (ligne r)) \<or> (\<forall>r\<in>set df. \<not> is_text (ligne r))"
  shows "\<exists>la. all_lines df = Inr la"
  using assms by (auto simp: all_lines_def Let_def set_unique list_ex_iff)

lemma subseq_more_lines:
  assumes "ligne ` set df \<subseteq> set ls'"
  shows "subseq (df_filtered ls t z df) (df_filtered ls' t z df)"
  unfolding df_filtered_eq using assms by (intro subseq_filter_weaken) auto

lemma example_df_filtered_RER:
  "df_filtered [Str ''1'', Str ''A''] ''RER'' Toutes example_df = [example_df ! 2]"
  by (simp add: df_filtered_def example_df_def example_prepared_def with_derived_def
      example_row_def Tous_def Toutes_def Metro_def)

lemma example_all_lines: "all_lines example_df = Inr [Str ''1'', Str ''14'', Str ''A'']"
  by (simp add: all_lines_def unique_def example_df_def example_prepared_def with_derived_def
      example_row_def)

text \<open>
  C1: the three filters act as one conjunction. A row is in the result exactly when it is a
  row of the frame, its line is selected, its type is the selected one unless the selection
  is \<open>Tous\<close>, and its zone is the selected one unless the selection is \<open>Toutes\<close>. Relaxing
  one of the three selections (the lines to any selection that has all the lines of the
  frame, such as the default of the selector, which exists for a column of one kind; the
  type to \<open>Tous\<close>; the zone to \<open>Toutes\<close>) gives a result of which the narrower one is a
  subsequence.
\<close>

theorem filter_conjunction:
  "(r \<in> set (df_filtered ls t z df) \<longleftrightarrow>
      r \<in> set df \<and> ligne r \<in> set ls \<and> (t = Tous \<or> type_ligne r = t)
        \<and> (z = Toutes \<or> zone_controlee r = Str z))
   \<and> (ligne ` set df \<subseteq> set ls' \<longrightarrow>
        subseq (df_filtered ls t z df) (df_filtered ls' t z df))
   \<and> (all_lines df = Inr la \<longrightarrow>
        subseq (df_filtered ls t z df) (df_filtered la t z df))
   \<and> ((\<forall>r\<in>set df. is_text (ligne r)) \<or> (\<forall>r\<in>set df. \<not> is_text (ligne r)) \<longrightarrow>
        (\<exists>la. all_lines df = Inr la))
   \<and> subseq (df_filtered ls t z df) (df_filtered ls Tous z df)
   \<and> subseq (df_filtered ls t z df) (df_filtered ls t Toutes df)"
proof (intro conjI impI)
  show "r \<in> set (df_filtered ls t z df) \<longleftrightarrow>
      r \<in> set df \<and> ligne r \<in> set ls \<and> (t = Tous \<or> type_ligne r = t)
        \<and> (z = Toutes \<or> zone_controlee r = Str z)"
    by (auto simp: df_filtered_eq)
  show "subseq (df_filtered ls t z df) (df_filtered ls' t z df)"
    if "ligne ` set df \<subseteq> set ls'"
    using that by (rule subseq_more_lines)
  show "subseq (df_filtered ls t z df) (df_filtered la t z df)" if "all_lines df = Inr la"
    by (rule subseq_more_lines) (simp add: all_lines_set [OF that])
  show "\<exists>la. all_lines df = Inr la"
    if "(\<forall>r\<in>set df. is_text (ligne r)) \<or> (\<forall>r\<in>set df. \<not> is_text (ligne r))"
    using that by (rule all_lines_total)
  show "subseq (df_filtered ls t z df) (df_filtered ls Tous z df)"
    unfolding df_filtered_eq by (rule subseq_filter_weaken) simp
  show "subseq (df_filtered ls t z df) (df_filtered ls t Toutes df)"
    unfolding df_filtered_eq by (rule subseq_filter_weaken) simp
qed

theorem filter_conjunction_witness:
  "df_filtered [Str ''1'', Str ''A''] ''RER'' Toutes example_df = [example_df ! 2]
   \<and> (example_df ! 2 \<in> set (df_filtered [Str ''1'', Str ''A''] ''RER'' Toutes example_df) \<longleftrightarrow>
      example_df ! 2 \<in> set example_df \<and> ligne (example_df ! 2) \<in> set [Str ''1'', Str ''A'']
        \<and> (''RER'' = Tous \<or> type_ligne (example_df ! 2) = ''RER'')
        \<and> (Toutes = Toutes \<or> zone_controlee (example_df ! 2) = Str Toutes))
   \<and> all_lines example_df = Inr [Str ''1'', Str ''14'', Str ''A'']
   \<and> subseq (df_filtered [Str ''1'', Str ''A''] ''RER'' Toutes example_df)
        (df_filtered [Str ''1'', Str ''14'', Str ''A''] ''RER'' Toutes example_df)
   \<and> subseq (df_filtered [Str ''1'', Str ''A''] ''RER'' Toutes example_df)
        (df_filtered [Str ''1'', Str ''A''] Tous Toutes example_df)
   \<and> subseq (df_filtered [Str ''1'', Str ''A''] ''RER'' Toutes example_df)
        (df_filtered [Str ''1'', Str ''A''] ''RER'' Toutes example_df)"
  using filter_conjunction [of "example_df ! 2" "[Str ''1'', Str ''A'']" "''RER''" Toutes
      example_df "[]" "[Str ''1'', Str ''14'', Str ''A'']"]
    example_df_filtered_RER example_all_lines
  by blast

text \<open>
  C10: the filtered rows are a subsequence of the frame, so the rows that stay keep their
  order; with the frame in the order of its lines, as the preparation leaves it, the
  filtered rows are in that order too.
\<close>

theorem filter_keeps_order:
  "subseq (df_filtered ls t z df) df
   \<and> (sorted (map ligne df) \<longrightarrow> sorted (map ligne (df_filtered ls t z df)))
   \<and> (load_and_prepare_data raw (Inr df) \<longrightarrow> sorted (map ligne (df_filtered ls t z df)))"
  using load_sorted [of raw df] by (auto simp: df_filtered_eq sorted_filter)

theorem filter_keeps_order_witness:
  "load_and_prepare_data example_raw (Inr example_df)
   \<and> sorted (map ligne example_df)
   \<and> subseq (df_filtered [Str ''A'', Str ''1''] Tous Toutes example_df) example_df
   \<and> map ligne (df_filtered [Str ''A'', Str ''1''] Tous Toutes example_df)
       = [Str ''1'', Str ''A'']
   \<and> sorted (map ligne (df_filtered [Str ''A'', Str ''1''] Tous Toutes example_df))"
proof -
  have v: "map ligne (df_filtered [Str ''A'', Str ''1''] Tous Toutes example_df)
      = [Str ''1'', Str ''A'']"
    by (simp add: df_filtered_def example_df_def example_prepared_def with_derived_def
        example_row_def)
  note t = filter_keeps_order [of "[Str ''A'', Str ''1'']" Tous Toutes example_df example_raw]
  have 1: "subseq (df_filtered [Str ''A'', Str ''1''] Tous Toutes example_df) example_df"
    using t by blast
  have 2: "sorted (map ligne (df_filtered [Str ''A'', Str ''1''] Tous Toutes example_df))"
    using t example_load by blast
  from example_load load_sorted [OF example_load] 1 v 2 show ?thesis
    by blast
qed

section \<open>Counting\<close>

lemma value_counts_Nil: "value_counts [] vc \<longleftrightarrow> vc = []"
  by (auto simp: value_counts_def)

lemma value_counts_snd:
  assumes "value_counts col vc"
  shows "map snd vc = map (count_list col) (map fst vc)"
  using assms by (auto simp: value_counts_def list_all_iff)

lemma value_counts_sum:
  assumes "value_counts col vc"
  shows "sum_list (map snd vc) = length col"
proof -
  have d: "distinct (map fst vc)" and s: "set (map fst vc) = set col"
    using assms by (simp_all add: value_counts_def)
  have "sum_list (map snd vc) = sum_list (map (count_list col) (map fst vc))"
    by (simp only: value_counts_snd [OF assms])
  also have "\<dots> = sum (count_list col) (set (map fst vc))"
    using d by (rule sum_list_distinct_conv_sum_set)
  also have "\<dots> = sum (count_list col) (set col)"
    by (simp only: s)
  also have "\<dots> = length col"
    by (rule sum_count_set) simp_all
  finally show ?thesis .
qed

lemma sort_index_Inr:
  assumes "sort_index vc = Inr lc"
  shows "lc = sort_key fst vc"
  using assms by (simp add: sort_index_def split: if_splits)

lemma sum_list_sort_index:
  assumes "sort_index vc = Inr lc"
  shows "sum_list (map snd lc) = sum_list (map snd vc)"
proof -
  have "mset (map snd lc) = mset (map snd vc)"
    by (simp add: sort_index_Inr [OF assms])
  then have "sum_mset (mset (map snd lc)) = sum_mset (mset (map snd vc))"
    by (rule arg_cong)
  then show ?thesis
    by (simp only: sum_mset_sum_list)
qed

lemma mixed_iff: "mixed col \<longleftrightarrow> (\<exists>c\<in>set col. is_num c) \<and> (\<exists>c\<in>set col. is_text c)"
  by (simp add: mixed_def list_ex_iff)

lemma mixed_subset: "set xs \<subseteq> set ys \<Longrightarrow> mixed xs \<Longrightarrow> mixed ys"
  unfolding mixed_iff by blast

lemma set_dropna: "set (dropna col) = set col - {NaN}"
  by (auto simp: dropna_def)

lemma count_list_dropna: "k \<noteq> NaN \<Longrightarrow> count_list (dropna col) k = count_list col k"
  by (induction col) (simp_all add: dropna_def)

lemma sorted_neg_count:
  "sorted (map (\<lambda>p. - int (snd p)) xs) \<Longrightarrow> sorted_wrt (\<ge>) (map snd xs)"
  by (induction xs) auto

lemma value_counts_first_seen: "value_counts col (counts_first_seen col)"
proof -
  let ?xs = "map (\<lambda>k. (k, count_list col k)) (unique col)"
  have m: "mset (counts_first_seen col) = mset ?xs"
    by (simp add: counts_first_seen_def)
  then have s: "set (counts_first_seen col) = set ?xs"
    by (rule mset_eq_setD)
  have "mset (map fst (counts_first_seen col)) = mset (map fst ?xs)"
    using m by (rule mset_map_eq)
  also have "\<dots> = mset (unique col)"
    by (simp add: o_def)
  finally have k: "mset (map fst (counts_first_seen col)) = mset (unique col)" .
  have 1: "distinct (map fst (counts_first_seen col))"
    by (simp add: mset_eq_imp_distinct_iff [OF k] distinct_unique)
  have 2: "set (map fst (counts_first_seen col)) = set col"
    using mset_eq_setD [OF k] by (simp add: set_unique)
  have 3: "list_all (\<lambda>(k, c). c = count_list col k) (counts_first_seen col)"
    unfolding list_all_iff s by auto
  have "sorted (map (\<lambda>p. - int (snd p)) (counts_first_seen col))"
    unfolding counts_first_seen_def by (rule sorted_sort_key)
  then have 4: "sorted_wrt (\<ge>) (map snd (counts_first_seen col))"
    by (rule sorted_neg_count)
  from 1 2 3 4 show ?thesis
    unfolding value_counts_def by blast
qed

lemma value_counts_length:
  assumes "value_counts col vc"
  shows "length vc = card (set col)"
proof -
  have d: "distinct (map fst vc)" and s: "set (map fst vc) = set col"
    using assms by (simp_all add: value_counts_def)
  have "card (set (map fst vc)) = length (map fst vc)"
    using d by (rule distinct_card)
  then show ?thesis
    using s by simp
qed

lemma sorted_wrt_take_drop:
  "sorted_wrt P xs \<Longrightarrow> x \<in> set (take n xs) \<Longrightarrow> y \<in> set (drop n xs) \<Longrightarrow> P x y"
  by (metis append_take_drop_id sorted_wrt_append)

lemma example_lines: "map ligne example_df = [Str ''1'', Str ''14'', Str ''A'']"
  by (simp add: example_df_def example_prepared_def with_derived_def example_row_def)

lemma example_counts:
  "value_counts (dropna (map ligne example_df))
     [(Str ''1'', 1), (Str ''14'', 1), (Str ''A'', 1)]"
  by (simp add: value_counts_def example_lines dropna_def)

lemma df_filtered_empty_iff:
  "df_filtered ls t z df = [] \<longleftrightarrow>
     (\<forall>r\<in>set df. \<not> (ligne r \<in> set ls \<and> (t = Tous \<or> type_ligne r = t)
        \<and> (z = Toutes \<or> zone_controlee r = Str z)))"
  unfolding df_filtered_eq filter_empty_conv by blast

text \<open>
  C7: the filters are total, with no exception among their results. An empty selection
  of lines, a selection of lines none of which occurs in the frame, a type or a zone that
  no row has, each gives the empty frame; lines that do not occur in the frame add nothing
  to a selection. On an empty filtered frame the counts by line and by zone are empty, and
  so is the count by line once sorted by its index.
\<close>

theorem filter_never_fails:
  "df_filtered [] t z df = []
   \<and> (set ls \<inter> ligne ` set df = {} \<longrightarrow> df_filtered ls t z df = [])
   \<and> (t \<noteq> Tous \<and> t \<notin> type_ligne ` set df \<longrightarrow> df_filtered ls t z df = [])
   \<and> (z \<noteq> Toutes \<and> Str z \<notin> zone_controlee ` set df \<longrightarrow> df_filtered ls t z df = [])
   \<and> (set us \<inter> ligne ` set df = {} \<longrightarrow>
        df_filtered (ls @ us) t z df = df_filtered ls t z df)
   \<and> (df_filtered ls t z df = [] \<longrightarrow>
        (value_counts (dropna (map ligne (df_filtered ls t z df))) vc \<longleftrightarrow> vc = [])
        \<and> (value_counts (dropna (map zone_controlee (df_filtered ls t z df))) vz \<longleftrightarrow> vz = [])
        \<and> (vc = [] \<longrightarrow> sort_index vc = Inr []))"
proof (intro conjI impI)
  show "df_filtered [] t z df = []"
    by (simp add: df_filtered_empty_iff)
  show "df_filtered ls t z df = []" if "set ls \<inter> ligne ` set df = {}"
    using that unfolding df_filtered_empty_iff by blast
  show "df_filtered ls t z df = []" if "t \<noteq> Tous \<and> t \<notin> type_ligne ` set df"
    using that unfolding df_filtered_empty_iff by blast
  show "df_filtered ls t z df = []" if "z \<noteq> Toutes \<and> Str z \<notin> zone_controlee ` set df"
    using that unfolding df_filtered_empty_iff by (metis imageI)
  show "df_filtered (ls @ us) t z df = df_filtered ls t z df"
    if "set us \<inter> ligne ` set df = {}"
    using that unfolding df_filtered_eq by (intro filter_cong) auto
  show "value_counts (dropna (map ligne (df_filtered ls t z df))) vc \<longleftrightarrow> vc = []"
    if "df_filtered ls t z df = []"
    using that by (simp add: value_counts_Nil dropna_def)
  show "value_counts (dropna (map zone_controlee (df_filtered ls t z df))) vz \<longleftrightarrow> vz = []"
    if "df_filtered ls t z df = []"
    using that by (simp add: value_counts_Nil dropna_def)
  show "sort_index vc = Inr []" if "vc = []"
    using that by (simp add: sort_index_def mixed_def)
qed

theorem filter_never_fails_witness:
  "df_filtered [] ''RER'' Toutes example_df = []
   \<and> set [Str ''99''] \<inter> ligne ` set example_df = {}
   \<and> df_filtered [Str ''99''] Tous Toutes example_df = []
   \<and> df_filtered [Str ''1'', Str ''A''] ''Bus'' Toutes example_df = []
   \<and> df_filtered [Str ''1'', Str ''A''] Tous ''ailleurs'' example_df = []
   \<and> df_filtered ([Str ''A''] @ [Str ''99'']) Tous Toutes example_df
       = df_filtered [Str ''A''] Tous Toutes example_df
   \<and> value_counts (dropna (map ligne (df_filtered [Str ''99''] Tous Toutes example_df))) []
   \<and> \<not> value_counts (dropna (map ligne (df_filtered [Str ''99''] Tous Toutes example_df)))
         [(Str ''99'', 0)]
   \<and> value_counts
        (dropna (map zone_controlee (df_filtered [Str ''99''] Tous Toutes example_df))) []
   \<and> sort_index [] = Inr []"
proof -
  have l: "ligne ` set example_df = {Str ''1'', Str ''14'', Str ''A''}"
    by (simp add: example_df_def example_prepared_def with_derived_def example_row_def)
  have t: "type_ligne ` set example_df = {Metro, ''RER''}"
    by (auto simp: example_df_def example_prepared_def with_derived_def example_row_def)
  have z: "zone_controlee ` set example_df = {Str en_zone_controlee, Str non_renseigne}"
    by (auto simp: example_df_def example_prepared_def with_derived_def example_row_def)
  have 1: "set [Str ''99''] \<inter> ligne ` set example_df = {}"
    by (simp add: l)
  have 2: "''Bus'' \<noteq> Tous \<and> ''Bus'' \<notin> type_ligne ` set example_df"
    by (simp add: t Tous_def Metro_def)
  have 3: "''ailleurs'' \<noteq> Toutes \<and> Str ''ailleurs'' \<notin> zone_controlee ` set example_df"
    by (simp add: z Toutes_def en_zone_controlee_def non_renseigne_def)
  note a = filter_never_fails [of "''RER''" Toutes example_df "[Str ''99'']" "[Str ''99'']"
      "[]" "[]"]
  note b = filter_never_fails [of "''Bus''" Toutes example_df "[Str ''1'', Str ''A'']" "[]"
      "[]" "[]"]
  note c = filter_never_fails [of Tous "''ailleurs''" example_df "[Str ''1'', Str ''A'']" "[]"
      "[]" "[]"]
  note d = filter_never_fails [of Tous Toutes example_df "[Str ''A'']" "[Str ''99'']" "[]" "[]"]
  note e = filter_never_fails [of Tous Toutes example_df "[Str ''99'']" "[]"
      "[(Str ''99'', 0)]" "[]"]
  note f = filter_never_fails [of Tous Toutes example_df "[Str ''99'']" "[]" "[]" "[]"]
  have a1: "df_filtered [] ''RER'' Toutes example_df = []"
    using a by blast
  have b1: "df_filtered [Str ''1'', Str ''A''] ''Bus'' Toutes example_df = []"
    using b 2 by blast
  have c1: "df_filtered [Str ''1'', Str ''A''] Tous ''ailleurs'' example_df = []"
    using c 3 by blast
  have d1: "df_filtered ([Str ''A''] @ [Str ''99'']) Tous Toutes example_df
       = df_filtered [Str ''A''] Tous Toutes example_df"
    using d 1 by blast
  have f0: "df_filtered [Str ''99''] Tous Toutes example_df = []"
    using f 1 by blast
  have e1: "\<not> value_counts (dropna (map ligne (df_filtered [Str ''99''] Tous Toutes example_df)))
         [(Str ''99'', 0)]"
    using e f0 by blast
  have f1: "value_counts (dropna (map ligne (df_filtered [Str ''99''] Tous Toutes example_df))) []"
    "value_counts
        (dropna (map zone_controlee (df_filtered [Str ''99''] Tous Toutes example_df))) []"
    "sort_index [] = Inr []"
    using f f0 by blast+
  from 1 a1 b1 c1 d1 f0 e1 f1 show ?thesis
    by blast
qed

text \<open>
  C8: the count by line has a result, and in every result the counts add up to the number
  of rows that have a line, which for a frame where no line is missing is the number of its
  rows; \<open>sort_index\<close> returns on a column of one kind and leaves the sum as it is.
\<close>

theorem counts_sum_to_length:
  "(\<exists>vc. value_counts (dropna (map ligne df)) vc)
   \<and> (value_counts (dropna (map ligne df)) vc \<longrightarrow>
        sum_list (map snd vc) = length (filter (\<lambda>r. ligne r \<noteq> NaN) df)
        \<and> (NaN \<notin> ligne ` set df \<longrightarrow> sum_list (map snd vc) = length df)
        \<and> (sort_index vc = Inr lc \<longrightarrow> sum_list (map snd lc) = sum_list (map snd vc))
        \<and> (\<not> mixed (map ligne df) \<longrightarrow> (\<exists>lc. sort_index vc = Inr lc)))"
proof (intro conjI impI)
  show "\<exists>vc. value_counts (dropna (map ligne df)) vc"
    using value_counts_first_seen by blast
next
  assume v: "value_counts (dropna (map ligne df)) vc"
  have "length (dropna (map ligne df)) = length (filter (\<lambda>r. ligne r \<noteq> NaN) df)"
    by (simp add: dropna_def filter_map o_def)
  with value_counts_sum [OF v]
  show s: "sum_list (map snd vc) = length (filter (\<lambda>r. ligne r \<noteq> NaN) df)"
    by simp
  show "sum_list (map snd vc) = length df" if "NaN \<notin> ligne ` set df"
  proof -
    have "\<forall>r\<in>set df. ligne r \<noteq> NaN"
      using that by (metis imageI)
    then have "filter (\<lambda>r. ligne r \<noteq> NaN) df = df"
      by (rule filter_True)
    with s show ?thesis
      by simp
  qed
  show "sum_list (map snd lc) = sum_list (map snd vc)" if "sort_index vc = Inr lc"
    using that by (rule sum_list_sort_index)
  show "\<exists>lc. sort_index vc = Inr lc" if "\<not> mixed (map ligne df)"
  proof -
    have "set (map fst vc) \<subseteq> set (map ligne df)"
      using v by (auto simp: value_counts_def set_dropna)
    then have "\<not> mixed (map fst vc)"
      using that mixed_subset by blast
    then show ?thesis
      by (simp add: sort_index_def)
  qed
qed

theorem counts_sum_to_length_witness:
  "value_counts (dropna (map ligne example_df))
     [(Str ''1'', 1), (Str ''14'', 1), (Str ''A'', 1)]
   \<and> sum_list (map snd [(Str ''1'', 1::nat), (Str ''14'', 1), (Str ''A'', 1)])
       = length example_df
   \<and> length example_df = 3
   \<and> sort_index [(Str ''1'', 1), (Str ''14'', 1), (Str ''A'', 1)]
       = Inr [(Str ''1'', 1), (Str ''14'', 1), (Str ''A'', 1)]"
proof -
  have n: "NaN \<notin> ligne ` set example_df"
    by (simp add: example_df_def example_prepared_def with_derived_def example_row_def)
  have s: "sort_index [(Str ''1'', 1), (Str ''14'', 1), (Str ''A'', 1)]
       = Inr [(Str ''1'', 1), (Str ''14'', 1), (Str ''A'', 1)]"
    by (simp add: sort_index_def mixed_def)
  have k: "length example_df = 3"
    by (simp add: example_df_def)
  from counts_sum_to_length [of example_df "[(Str ''1'', 1), (Str ''14'', 1), (Str ''A'', 1)]"]
    example_counts n
  have "sum_list (map snd [(Str ''1'', 1::nat), (Str ''14'', 1), (Str ''A'', 1)])
       = length example_df"
    by blast
  with example_counts s k show ?thesis
    by blast
qed

text \<open>
  C9, as the program has it: the first \<open>n\<close> entries of the count by line are a prefix of
  the count as \<open>value_counts\<close> returned it, so lines of equal count stay in the order it
  gave them. The entries are in descending order of count, carry distinct lines with their
  true counts, and no entry left out has a larger count than an entry kept. \<open>sort_key\<close>
  takes no part in it.
\<close>

theorem top_lines_by_count:
  assumes "value_counts (dropna (map ligne df)) vc"
  shows "prefix (head n vc) vc
    \<and> head n vc = take n vc
    \<and> sorted_wrt (\<ge>) (map snd (head n vc))
    \<and> distinct (map fst (head n vc))
    \<and> list_all (\<lambda>(k, c). c = count_list (map ligne df) k) (head n vc)
    \<and> (\<forall>p\<in>set (head n vc). \<forall>q\<in>set (drop n vc). snd q \<le> snd p)
    \<and> length (head n vc) = min n (card (ligne ` set df - {NaN}))"
proof (intro conjI ballI)
  have s: "sorted_wrt (\<ge>) (map snd vc)" and d: "distinct (map fst vc)"
    and c: "list_all (\<lambda>(k, c). c = count_list (dropna (map ligne df)) k) vc"
    and k: "set (map fst vc) = set (dropna (map ligne df))"
    using assms by (simp_all add: value_counts_def)
  show "prefix (head n vc) vc"
    by (simp add: head_def take_is_prefix)
  show "head n vc = take n vc"
    by (simp add: head_def)
  show "sorted_wrt (\<ge>) (map snd (head n vc))"
    using s by (simp add: head_def take_map [symmetric] sorted_wrt_take)
  show "distinct (map fst (head n vc))"
    using d by (simp add: head_def take_map [symmetric])
  have c': "list_all (\<lambda>(k, c). c = count_list (map ligne df) k) vc"
    unfolding list_all_iff
  proof
    fix p assume p: "p \<in> set vc"
    then have "fst p \<in> set (dropna (map ligne df))"
      using k by auto
    then have "fst p \<noteq> NaN"
      by (simp add: set_dropna)
    then have "count_list (dropna (map ligne df)) (fst p) = count_list (map ligne df) (fst p)"
      by (rule count_list_dropna)
    moreover have "snd p = count_list (dropna (map ligne df)) (fst p)"
      using c p unfolding list_all_iff by auto
    ultimately show "case p of (k, c) \<Rightarrow> c = count_list (map ligne df) k"
      by (simp add: case_prod_beta)
  qed
  show "list_all (\<lambda>(k, c). c = count_list (map ligne df) k) (head n vc)"
    using c' set_take_subset [of n vc] unfolding head_def list_all_iff by blast
  show "length (head n vc) = min n (card (ligne ` set df - {NaN}))"
    using value_counts_length [OF assms] by (simp add: head_def min.commute set_dropna)
  fix p q assume p: "p \<in> set (head n vc)" and q: "q \<in> set (drop n vc)"
  have s': "sorted_wrt (\<lambda>a b. snd b \<le> snd a) vc"
    using s by (simp add: sorted_wrt_map)
  from p have p': "p \<in> set (take n vc)"
    by (simp add: head_def)
  from s' p' q show "snd q \<le> snd p"
    by (rule sorted_wrt_take_drop)
qed

theorem top_lines_by_count_witness:
  "value_counts (dropna (map ligne example_df))
     [(Str ''1'', 1), (Str ''14'', 1), (Str ''A'', 1)]
   \<and> head 2 [(Str ''1'', 1::nat), (Str ''14'', 1), (Str ''A'', 1)]
       = [(Str ''1'', 1), (Str ''14'', 1)]
   \<and> prefix (head 2 [(Str ''1'', 1::nat), (Str ''14'', 1), (Str ''A'', 1)])
        [(Str ''1'', 1), (Str ''14'', 1), (Str ''A'', 1)]
   \<and> sorted_wrt (\<ge>) (map snd (head 2 [(Str ''1'', 1::nat), (Str ''14'', 1), (Str ''A'', 1)]))
   \<and> distinct (map fst (head 2 [(Str ''1'', 1::nat), (Str ''14'', 1), (Str ''A'', 1)]))
   \<and> length (head 2 [(Str ''1'', 1::nat), (Str ''14'', 1), (Str ''A'', 1)])
       = min 2 (card (ligne ` set example_df - {NaN}))"
proof -
  have h: "head 2 [(Str ''1'', 1::nat), (Str ''14'', 1), (Str ''A'', 1)]
      = [(Str ''1'', 1), (Str ''14'', 1)]"
    by (simp add: head_def)
  from top_lines_by_count [OF example_counts, of 2] example_counts h show ?thesis
    by blast
qed

lemma isdigit_2: "isdigit ''2''"
  by (simp add: isdigit_def isdigit_char_def is_decimal_def less_eq_char_def)

lemma isdigit_10: "isdigit ''10''"
  by (simp add: isdigit_def isdigit_char_def is_decimal_def less_eq_char_def)

lemma sort_key_2: "sort_key_ligne ''2'' = Inr (NumKey 2)"
  by (simp add: sort_key_ligne_def isdigit_2 int_of_digits_def is_decimal_def less_eq_char_def
      int_max_str_digits_def decimal_value_def digit_value_def)

lemma sort_key_10: "sort_key_ligne ''10'' = Inr (NumKey 10)"
  by (simp add: sort_key_ligne_def isdigit_10 int_of_digits_def is_decimal_def less_eq_char_def
      int_max_str_digits_def decimal_value_def digit_value_def)

lemma three_lines_load: "load_and_prepare_data three_lines_raw (Inr three_lines_df)"
  by (simp add: load_and_prepare_data_def derive_columns_def sort_values_ligne_def mixed_def
      three_lines_raw_def three_lines_df_def example_row_def example_prepared_def
      with_derived_def type_ligne_of_def)

lemma three_lines_lines:
  "map ligne three_lines_df = [Str ''10'', Str ''2'', Str ''A'']"
  by (simp add: three_lines_df_def example_prepared_def with_derived_def example_row_def)

lemma three_lines_counts:
  "counts_first_seen (dropna (map ligne three_lines_df))
     = [(Str ''10'', 1), (Str ''2'', 1), (Str ''A'', 1)]"
  by (simp add: three_lines_lines dropna_def counts_first_seen_def unique_def)

text \<open>
  C9 as stated has lines of equal count in the display order of \<open>sort_key\<close>. Take one
  fountain on each of the lines A, 2 and 10, which the line A makes texts. The prepared
  frame has them in the order 10, 2, A. The count that keeps lines of equal count in the
  order of their first occurrence lists line 10 before line 2, and so do its first ten
  entries; its first entry is line 10. \<open>sort_key\<close> puts line 2 before line 10.
\<close>

theorem ties_not_in_line_order:
  "load_and_prepare_data three_lines_raw (Inr three_lines_df)
   \<and> map ligne three_lines_df = [Str ''10'', Str ''2'', Str ''A'']
   \<and> counts_first_seen (dropna (map ligne three_lines_df))
       = [(Str ''10'', 1), (Str ''2'', 1), (Str ''A'', 1)]
   \<and> value_counts (dropna (map ligne three_lines_df))
        [(Str ''10'', 1), (Str ''2'', 1), (Str ''A'', 1)]
   \<and> head 10 [(Str ''10'', 1::nat), (Str ''2'', 1), (Str ''A'', 1)]
       = [(Str ''10'', 1), (Str ''2'', 1), (Str ''A'', 1)]
   \<and> head 1 [(Str ''10'', 1::nat), (Str ''2'', 1), (Str ''A'', 1)] = [(Str ''10'', 1)]
   \<and> sort_key_ligne ''2'' = Inr (NumKey 2)
   \<and> sort_key_ligne ''10'' = Inr (NumKey 10)
   \<and> NumKey 2 < NumKey 10"
proof -
  have v: "value_counts (dropna (map ligne three_lines_df))
        [(Str ''10'', 1), (Str ''2'', 1), (Str ''A'', 1)]"
    using value_counts_first_seen [of "dropna (map ligne three_lines_df)"]
    by (simp only: three_lines_counts)
  have k: "NumKey 2 < NumKey 10"
    by (simp add: less_key_def)
  have h: "head 10 [(Str ''10'', 1::nat), (Str ''2'', 1), (Str ''A'', 1)]
       = [(Str ''10'', 1), (Str ''2'', 1), (Str ''A'', 1)]"
    "head 1 [(Str ''10'', 1::nat), (Str ''2'', 1), (Str ''A'', 1)] = [(Str ''10'', 1)]"
    by (simp_all add: head_def)
  from three_lines_load three_lines_lines three_lines_counts v h sort_key_2 sort_key_10 k
  show ?thesis
    by blast
qed

section \<open>The display order\<close>

lemma decimal_isdigit: "s \<noteq> [] \<Longrightarrow> list_all is_decimal s \<Longrightarrow> isdigit s"
  by (simp add: isdigit_def isdigit_char_def list_all_iff)

lemma int_of_decimal:
  "s \<noteq> [] \<Longrightarrow> list_all is_decimal s \<Longrightarrow> length s \<le> int_max_str_digits \<Longrightarrow>
   int_of_digits s = Inr (decimal_value s)"
  by (simp add: int_of_digits_def)

lemma bit_length_le: "n < 2 ^ k \<Longrightarrow> bit_length n \<le> k"
proof (induction k arbitrary: n)
  case 0
  then show ?case
    by (simp add: bit_length.simps)
next
  case (Suc k)
  have "n div 2 < 2 ^ k"
    using Suc.prems by simp
  then have "bit_length (n div 2) \<le> k"
    by (rule Suc.IH)
  then show ?case
    by (subst bit_length.simps) simp
qed

lemma bit_length_eq: "2 ^ k \<le> n \<Longrightarrow> n < 2 ^ Suc k \<Longrightarrow> bit_length n = Suc k"
proof (induction k arbitrary: n)
  case 0
  then have "n = 1"
    by simp
  then show ?case
    by (simp add: bit_length.simps)
next
  case (Suc k)
  have "2 ^ k \<le> n div 2" "n div 2 < 2 ^ Suc k"
    using Suc.prems by simp_all
  then have "bit_length (n div 2) = Suc k"
    by (rule Suc.IH)
  moreover have "n \<noteq> 0"
    using Suc.prems by auto
  ultimately show ?case
    by (subst bit_length.simps) simp
qed

lemma round53_exact: "n < 2 ^ 53 \<Longrightarrow> round53 n = n"
  using bit_length_le [of n 53] by (simp add: round53_def Let_def)

lemma int_plus_half_exact:
  assumes "n < 2 ^ 52"
  shows "int_plus_half n = Inr (of_nat n + 1 / 2)"
proof -
  have a: "round53 n = n"
    using assms by (intro round53_exact) simp
  have b: "round53 (2 * n + 1) = 2 * n + 1"
    using assms by (intro round53_exact) simp
  have "(2::nat) ^ 52 \<le> 2 ^ 1024"
    by (rule power_increasing) simp_all
  with assms have c: "\<not> (2::nat) ^ 1024 \<le> n"
    by (simp only: not_le)
  have h: "(of_nat (2 * n + 1) :: rat) / 2 = of_nat n + 1 / 2"
    by (simp add: field_simps)
  have "int_plus_half n =
      (if 2 ^ 1024 \<le> n then Inl OverflowError else Inr (of_nat (round53 (2 * n + 1)) / 2))"
    unfolding int_plus_half_def Let_def a ..
  also have "\<dots> = Inr (of_nat (2 * n + 1) / 2)"
    using c by (simp only: b if_False)
  finally show ?thesis
    by (simp only: h)
qed

lemma not_isdigit_bis: "\<not> isdigit (s @ ''bis'')"
  by (simp add: isdigit_def isdigit_char_def is_decimal_def less_eq_char_def)

lemma drop_last3_bis: "drop_last3 (s @ ''bis'') = s"
  by (simp add: drop_last3_def)

lemma endswith_bis: "endswith (s @ ''bis'') ''bis''"
  by (simp add: endswith_def)

lemma sort_key_decimal:
  assumes "s \<noteq> []" "list_all is_decimal s" "length s \<le> int_max_str_digits"
  shows "sort_key_ligne s = Inr (NumKey (of_nat (decimal_value s)))"
  using assms by (simp add: sort_key_ligne_def decimal_isdigit int_of_decimal)

lemma sort_key_bis_any:
  assumes "s \<noteq> []" "list_all is_decimal s" "length s \<le> int_max_str_digits"
  shows "sort_key_ligne (s @ ''bis'') =
     (case int_plus_half (decimal_value s) of Inl e \<Rightarrow> Inl e | Inr x \<Rightarrow> Inr (NumKey x))"
  using assms
  by (simp add: sort_key_ligne_def not_isdigit_bis drop_last3_bis endswith_bis decimal_isdigit
      int_of_decimal)

lemma sort_key_bis:
  assumes "s \<noteq> []" "list_all is_decimal s" "length s \<le> int_max_str_digits"
    "decimal_value s < 2 ^ 52"
  shows "sort_key_ligne (s @ ''bis'') = Inr (NumKey (of_nat (decimal_value s) + 1 / 2))"
  using assms
  by (simp add: sort_key_ligne_def not_isdigit_bis drop_last3_bis endswith_bis decimal_isdigit
      int_of_decimal int_plus_half_exact)

lemma between_half: "(of_nat m :: rat) < of_nat n + 1 / 2 \<longleftrightarrow> m \<le> n"
proof
  assume "(of_nat m :: rat) < of_nat n + 1 / 2"
  then have "(of_nat m :: rat) < of_nat (Suc n)"
    by simp
  then have "m < Suc n"
    by (simp only: of_nat_less_iff)
  then show "m \<le> n"
    by simp
next
  assume "m \<le> n"
  then have "(of_nat m :: rat) \<le> of_nat n"
    by simp
  then show "(of_nat m :: rat) < of_nat n + 1 / 2"
    by simp
qed

lemma key_less_simps:
  "NumKey x < StrKey l" "StrKey l < StrKey l' \<longleftrightarrow> l < l'" "NumKey x < NumKey y \<longleftrightarrow> x < y"
  "\<not> StrKey l < NumKey x"
  by (auto simp: less_key_def)

lemma sort_key_1: "sort_key_ligne ''1'' = Inr (NumKey 1)"
  by (simp add: sort_key_ligne_def isdigit_def isdigit_char_def int_of_digits_def is_decimal_def
      less_eq_char_def int_max_str_digits_def decimal_value_def digit_value_def)

lemma sort_key_A: "sort_key_ligne ''A'' = Inr (StrKey ''A'')"
  by (simp add: sort_key_ligne_def isdigit_def isdigit_char_def is_decimal_def
      less_eq_char_def drop_last3_def endswith_def)

lemma sort_key_1bis: "sort_key_ligne ''1bis'' = Inr (NumKey (3 / 2))"
proof -
  have "sort_key_ligne (''1'' @ ''bis'') = Inr (NumKey (of_nat (decimal_value ''1'') + 1 / 2))"
    by (rule sort_key_bis)
      (simp_all add: is_decimal_def less_eq_char_def int_max_str_digits_def decimal_value_def
        digit_value_def)
  then show ?thesis
    by (simp add: decimal_value_def digit_value_def)
qed

lemma example_sorted:
  "sorted_by_sort_key [''2'', ''1'', ''1bis'', ''A'', ''10''] =
     Inr [''1'', ''1bis'', ''2'', ''10'', ''A'']"
  by (simp add: sorted_by_sort_key_def sort_key_1 sort_key_2 sort_key_10 sort_key_A
      sort_key_1bis)

lemma decimal_14:
  "''14'' \<noteq> []" "list_all is_decimal ''14''" "length ''14'' \<le> int_max_str_digits"
  "decimal_value ''14'' = 14"
  by (simp_all add: is_decimal_def less_eq_char_def int_max_str_digits_def decimal_value_def
      digit_value_def)

lemma bit_length_2_53: "bit_length 9007199254740993 = 54"
  by (rule bit_length_eq [of 53, simplified]) simp_all

lemma bit_length_2_54: "bit_length 18014398509481985 = 55"
  by (rule bit_length_eq [of 54, simplified]) simp_all

lemma round53_big: "round53 9007199254740993 = 9007199254740992"
  by (simp add: round53_def Let_def bit_length_2_53)

lemma round53_bigger: "round53 18014398509481985 = 18014398509481984"
  by (simp add: round53_def Let_def bit_length_2_54)

lemma int_plus_half_big: "int_plus_half 9007199254740993 = Inr 9007199254740992"
  by (simp add: int_plus_half_def Let_def round53_big round53_bigger)

lemma big_decimal:
  "''9007199254740993'' \<noteq> []" "list_all is_decimal ''9007199254740993''"
  "length ''9007199254740993'' \<le> int_max_str_digits"
  "decimal_value ''9007199254740993'' = 9007199254740993"
  by (simp_all add: is_decimal_def less_eq_char_def int_max_str_digits_def decimal_value_def
      digit_value_def)

lemma sort_key_big: "sort_key_ligne ''9007199254740993'' = Inr (NumKey 9007199254740993)"
  using sort_key_decimal [OF big_decimal(1-3)] by (simp add: big_decimal(4))

lemma sort_key_big_bis:
  "sort_key_ligne ''9007199254740993bis'' = Inr (NumKey 9007199254740992)"
  using sort_key_bis_any [OF big_decimal(1-3)] by (simp add: big_decimal(4) int_plus_half_big)

text \<open>
  C3, as the program has it. A line written in decimal digits (at most 4300 of them, the
  limit of the interpreter on integer conversions) has the key of its integer value
  \<open>N\<close>. A line written as such digits followed by \<open>bis\<close>, with \<open>N\<close> below \<open>2 ^ 52\<close>, has
  the key \<open>N + 1/2\<close>, and the integer keys below it are exactly those up to \<open>N\<close>. A line
  that \<open>isdigit\<close> rejects, and that is not a string \<open>isdigit\<close> accepts followed by \<open>bis\<close>,
  has the key of its own text; such keys come after every numeric key and are ordered among
  themselves as strings. The five lines of the example sort as stated.
\<close>

theorem sort_key_order:
  "(s \<noteq> [] \<and> list_all is_decimal s \<and> length s \<le> int_max_str_digits \<longrightarrow>
      sort_key_ligne s = Inr (NumKey (of_nat (decimal_value s))))
   \<and> (s \<noteq> [] \<and> list_all is_decimal s \<and> length s \<le> int_max_str_digits
        \<and> decimal_value s < 2 ^ 52 \<longrightarrow>
      sort_key_ligne (s @ ''bis'') = Inr (NumKey (of_nat (decimal_value s) + 1 / 2))
      \<and> (NumKey (of_nat m) < NumKey (of_nat (decimal_value s) + 1 / 2) \<longleftrightarrow>
           m \<le> decimal_value s))
   \<and> (\<not> isdigit l \<and> \<not> (isdigit (drop_last3 l) \<and> endswith l ''bis'') \<longrightarrow>
        sort_key_ligne l = Inr (StrKey l))
   \<and> NumKey x < StrKey l
   \<and> (StrKey l < StrKey l' \<longleftrightarrow> l < l')
   \<and> (NumKey x < NumKey y \<longleftrightarrow> x < y)
   \<and> sorted_by_sort_key [''2'', ''1'', ''1bis'', ''A'', ''10''] =
        Inr [''1'', ''1bis'', ''2'', ''10'', ''A'']"
proof (intro conjI impI)
  show "sort_key_ligne s = Inr (NumKey (of_nat (decimal_value s)))"
    if "s \<noteq> [] \<and> list_all is_decimal s \<and> length s \<le> int_max_str_digits"
    using that by (simp add: sort_key_decimal)
  show "sort_key_ligne (s @ ''bis'') = Inr (NumKey (of_nat (decimal_value s) + 1 / 2))"
    if "s \<noteq> [] \<and> list_all is_decimal s \<and> length s \<le> int_max_str_digits
        \<and> decimal_value s < 2 ^ 52"
    using that by (simp add: sort_key_bis)
  show "NumKey (of_nat m) < NumKey (of_nat (decimal_value s) + 1 / 2) \<longleftrightarrow> m \<le> decimal_value s"
    by (simp only: key_less_simps between_half)
  show "sort_key_ligne l = Inr (StrKey l)"
    if "\<not> isdigit l \<and> \<not> (isdigit (drop_last3 l) \<and> endswith l ''bis'')"
    using that by (auto simp: sort_key_ligne_def)
  show "NumKey x < StrKey l" "StrKey l < StrKey l' \<longleftrightarrow> l < l'" "NumKey x < NumKey y \<longleftrightarrow> x < y"
    by (simp_all only: key_less_simps)
  show "sorted_by_sort_key [''2'', ''1'', ''1bis'', ''A'', ''10''] =
        Inr [''1'', ''1bis'', ''2'', ''10'', ''A'']"
    by (rule example_sorted)
qed

theorem sort_key_order_witness:
  "sort_key_ligne ''14'' = Inr (NumKey 14)
   \<and> sort_key_ligne ''14bis'' = Inr (NumKey (29 / 2))
   \<and> NumKey 14 < NumKey (29 / 2) \<and> NumKey (29 / 2) < NumKey 15
   \<and> sort_key_ligne ''A'' = Inr (StrKey ''A'')
   \<and> NumKey 15 < StrKey ''A''
   \<and> StrKey ''A'' < StrKey ''B''
   \<and> sorted_by_sort_key [''2'', ''1'', ''1bis'', ''A'', ''10''] =
        Inr [''1'', ''1bis'', ''2'', ''10'', ''A'']"
proof -
  have n: "\<not> isdigit ''A'' \<and> \<not> (isdigit (drop_last3 ''A'') \<and> endswith ''A'' ''bis'')"
    by (simp add: isdigit_def isdigit_char_def is_decimal_def less_eq_char_def drop_last3_def)
  have b: "decimal_value ''14'' < 2 ^ 52"
    by (simp add: decimal_14(4))
  have o: "''A'' < ''B''"
    by simp
  note t = sort_key_order [of "''14''" 14 "''A''" 15 "''B''" 15]
  have 1: "sort_key_ligne ''14'' = Inr (NumKey 14)"
    using t decimal_14 by simp
  have 2: "sort_key_ligne (''14'' @ ''bis'') = Inr (NumKey (of_nat (decimal_value ''14'') + 1 / 2))"
    using t decimal_14(1-3) b by blast
  have 3: "sort_key_ligne ''A'' = Inr (StrKey ''A'')"
    using t n by blast
  have 4: "NumKey 15 < StrKey ''A''" "StrKey ''A'' < StrKey ''B''"
    using t o by blast+
  have 5: "sorted_by_sort_key [''2'', ''1'', ''1bis'', ''A'', ''10''] =
        Inr [''1'', ''1bis'', ''2'', ''10'', ''A'']"
    using t by blast
  have 6: "NumKey 14 < NumKey (29 / 2)" "NumKey (29 / 2) < NumKey 15"
    by (simp_all add: key_less_simps)
  from 2 have 7: "sort_key_ligne ''14bis'' = Inr (NumKey (29 / 2))"
    by (simp add: decimal_14(4))
  from 1 7 3 4 5 6 show ?thesis
    by blast
qed

text \<open>
  C3 as stated gives the line made of the digits of \<open>N\<close> and \<open>bis\<close> the value \<open>N + 1/2\<close>, right
  after \<open>N\<close>, for every \<open>N\<close>. For \<open>N = 2 ^ 53 + 1\<close> the double nearest to \<open>N\<close> is \<open>2 ^ 53\<close> and
  adding a half leaves it there: the \<open>bis\<close> line gets a key below that of \<open>N\<close> and sorts
  before it.
\<close>

theorem bis_key_beyond_double_precision:
  "sort_key_ligne ''9007199254740993'' = Inr (NumKey 9007199254740993)
   \<and> sort_key_ligne ''9007199254740993bis'' = Inr (NumKey 9007199254740992)
   \<and> NumKey 9007199254740992 < NumKey 9007199254740993
   \<and> sorted_by_sort_key [''9007199254740993'', ''9007199254740993bis''] =
        Inr [''9007199254740993bis'', ''9007199254740993'']"
proof -
  have "sorted_by_sort_key [''9007199254740993'', ''9007199254740993bis''] =
        Inr [''9007199254740993bis'', ''9007199254740993'']"
    by (simp add: sorted_by_sort_key_def sort_key_big sort_key_big_bis)
  moreover have "NumKey 9007199254740992 < NumKey 9007199254740993"
    by (simp add: key_less_simps)
  ultimately show ?thesis
    using sort_key_big sort_key_big_bis by blast
qed

end
